theory Spec2Isabelle
  imports Main "HOL-Library.AList" "HOL-Library.Sublist" "HOL-Library.Word"
begin

unbundle bit_operations_syntax

section \<open>Go maps\<close>

text \<open>
  A Go \<^verbatim>\<open>map[string]V\<close> is modelled by the list of its entries. A key bound more than
  once in such a list is read at its first binding, and every operation of the source
  (\<^verbatim>\<open>len\<close>, \<^verbatim>\<open>m[k]\<close>, \<^verbatim>\<open>m[k] = v\<close>, \<^verbatim>\<open>range\<close>) is defined through that reading, so that
  every list denotes a map. The nil map and the empty map are both \<open>[]\<close>: the source only
  reads nil maps, and reading does not tell them apart.
\<close>

type_synonym 'v gomap = "(string \<times> 'v) list"

definition entries :: "'v gomap \<Rightarrow> (string \<times> 'v) list" where
  \<comment> \<open>what \<^verbatim>\<open>for k, v := range m\<close> visits: every key once. Go fixes no order;
      the loops of the source return the same value in every order.\<close>
  "entries m = AList.clearjunk m"

definition len :: "'v gomap \<Rightarrow> nat" where
  "len m = length (entries m)"

definition index :: "string gomap \<Rightarrow> string \<Rightarrow> string" where
  \<comment> \<open>\<^verbatim>\<open>m[k]\<close> in an expression: the zero value \<^verbatim>\<open>""\<close> for a key that is not in the map\<close>
  "index m k = (case map_of m k of None \<Rightarrow> [] | Some v \<Rightarrow> v)"

definition assign :: "'v gomap \<Rightarrow> string \<Rightarrow> 'v \<Rightarrow> 'v gomap" where
  \<comment> \<open>\<^verbatim>\<open>m[k] = v\<close>\<close>
  "assign m k v = AList.update k v m"

section \<open>Data model\<close>

text \<open>
  \<^verbatim>\<open>Document\<close> holds its metadata as a Go map, which is a reference. The type parameter is
  what stands for that reference: the contents of the map (\<open>string gomap\<close>) in the code
  that only reads metadata, an address into a store of maps in \<^verbatim>\<open>chunkMarkdown\<close>, which
  writes to a map that several documents hold.
\<close>

record 'm Document =
  Content :: string
  Metadata :: 'm

text \<open>\<^verbatim>\<open>Score\<close> is a \<^verbatim>\<open>float32\<close>, kept as its 32 bits: the code only copies it.\<close>

record 'm Result =
  Document :: "'m Document"
  Score :: "32 word"

text \<open>
  The values of \<^verbatim>\<open>Regex\<close> are compiled patterns of Go's \<^verbatim>\<open>regexp\<close> package, a type \<open>'re\<close>
  here; \<^verbatim>\<open>regexp.Compile\<close> and \<^verbatim>\<open>(*Regexp).MatchString\<close> are parameters of the functions
  that call them.
\<close>

text \<open>\<^verbatim>\<open>Number\<close> is a Go \<^verbatim>\<open>int\<close>; the code stores and copies it, and computes nothing from it.\<close>

record 're Query =
  Query :: string
  Exact :: "string gomap"
  Regex :: "'re gomap"
  Number :: int

datatype panic =
    KeyValuesNotInPairs         \<comment> \<open>\<^verbatim>\<open>panic("key-values are not in pairs.")\<close>\<close>
  | MustCompile string          \<comment> \<open>\<^verbatim>\<open>regexp.MustCompile\<close> on a pattern that does not compile\<close>
  | IndexOutOfRange             \<comment> \<open>\<^verbatim>\<open>kv[i+1]\<close> past the end of \<^verbatim>\<open>kv\<close>\<close>
  | NilPointerDereference       \<comment> \<open>a field read through a nil \<^verbatim>\<open>*Query\<close>\<close>
  | MakechanSizeOutOfRange      \<comment> \<open>\<^verbatim>\<open>make(chan struct{}, n)\<close> with \<open>n < 0\<close>\<close>

text \<open>
  How a call that returns an \<^verbatim>\<open>error\<close> can end without a result: it panics, it returns the
  error \<open>'e\<close> of a collaborator, or it never returns.
\<close>

datatype 'e fault = Panic panic | Error 'e | Blocked

section \<open>Query builder\<close>

text \<open>A \<^verbatim>\<open>*Query\<close> is \<open>None\<close> when nil. The builder methods return the query they updated.\<close>

definition setOrDefault :: "'re Query option \<Rightarrow> 're Query" where
  "setOrDefault q =
     (case q of
        None \<Rightarrow> \<lparr>Query = [], Exact = [], Regex = [], Number = 1\<rparr>
      | Some q' \<Rightarrow> q')"

definition WithQuery :: "'re Query option \<Rightarrow> string \<Rightarrow> 're Query" where
  "WithQuery q query = (setOrDefault q)\<lparr>Query := query\<rparr>"

definition NewQuery :: "string \<Rightarrow> 're Query" where
  \<comment> \<open>\<^verbatim>\<open>(&Query{}).WithQuery(query)\<close>: the receiver is a zero-valued query, not nil\<close>
  "NewQuery query = WithQuery (Some \<lparr>Query = [], Exact = [], Regex = [], Number = 0\<rparr>) query"

fun WithExact_loop :: "string gomap \<Rightarrow> string list \<Rightarrow> panic + string gomap" where
  \<comment> \<open>\<^verbatim>\<open>for i := 0; i < len(kv); i += 2 { exact[kv[i]] = kv[i+1] }\<close>, on what is left of
      \<^verbatim>\<open>kv\<close> from \<^verbatim>\<open>i\<close> on\<close>
  "WithExact_loop exact [] = Inr exact"
| "WithExact_loop exact [k] = Inl IndexOutOfRange"
| "WithExact_loop exact (k # v # kv) = WithExact_loop (assign exact k v) kv"

definition WithExact :: "'re Query option \<Rightarrow> string list \<Rightarrow> panic + 're Query" where
  "WithExact q kv =
     (if length kv mod 2 \<noteq> 0 then Inl KeyValuesNotInPairs
      else case WithExact_loop [] kv of
             Inl p \<Rightarrow> Inl p
           | Inr exact \<Rightarrow> Inr ((setOrDefault q)\<lparr>Exact := exact\<rparr>))"

fun WithRegex_loop ::
  "(string \<Rightarrow> 're option) \<Rightarrow> 're gomap \<Rightarrow> string list \<Rightarrow> panic + 're gomap" where
  "WithRegex_loop Compile regex [] = Inr regex"
| "WithRegex_loop Compile regex [k] = Inl IndexOutOfRange"
| "WithRegex_loop Compile regex (k # p # kv) =
     (case Compile p of
        None \<Rightarrow> Inl (MustCompile p)
      | Some re \<Rightarrow> WithRegex_loop Compile (assign regex k re) kv)"

definition WithRegex ::
  "(string \<Rightarrow> 're option) \<Rightarrow> 're Query option \<Rightarrow> string list \<Rightarrow> panic + 're Query" where
  "WithRegex Compile q kv =
     (if length kv mod 2 \<noteq> 0 then Inl KeyValuesNotInPairs
      else case WithRegex_loop Compile [] kv of
             Inl p \<Rightarrow> Inl p
           | Inr regex \<Rightarrow> Inr ((setOrDefault q)\<lparr>Regex := regex\<rparr>))"

definition WithNumber :: "'re Query option \<Rightarrow> int \<Rightarrow> 're Query" where
  "WithNumber q i = (setOrDefault q)\<lparr>Number := i\<rparr>"

section \<open>Filter\<close>

fun Filter_Exact :: "string gomap \<Rightarrow> (string \<times> string) list \<Rightarrow> bool" where
  \<comment> \<open>\<^verbatim>\<open>for k, v := range q.Exact { if md[k] != v { return false } }\<close>; \<open>True\<close> is the loop
      running to its end, from where control reaches \<^verbatim>\<open>return true\<close>\<close>
  "Filter_Exact md [] = True"
| "Filter_Exact md ((k, v) # kvs) = (if index md k \<noteq> v then False else Filter_Exact md kvs)"

fun Filter_Regex ::
  "('re \<Rightarrow> string \<Rightarrow> bool) \<Rightarrow> string gomap \<Rightarrow> (string \<times> 're) list \<Rightarrow> bool" where
  \<comment> \<open>\<^verbatim>\<open>for k, r := range q.Regex { if !r.MatchString(md[k]) { return false } }\<close>\<close>
  "Filter_Regex MatchString md [] = True"
| "Filter_Regex MatchString md ((k, r) # krs) =
     (if \<not> MatchString r (index md k) then False else Filter_Regex MatchString md krs)"

definition Filter ::
  "('re \<Rightarrow> string \<Rightarrow> bool) \<Rightarrow> 're Query option \<Rightarrow> string gomap Result \<Rightarrow> panic + bool" where
  \<comment> \<open>the receiver is a pointer: reading \<^verbatim>\<open>q.Exact\<close> through nil panics\<close>
  "Filter MatchString q r =
     (let md = Metadata (Document r) in
      case q of
        None \<Rightarrow> Inl NilPointerDereference
      | Some q' \<Rightarrow>
          if len (Exact q') \<noteq> 0 then Inr (Filter_Exact md (entries (Exact q')))
          else if len (Regex q') \<noteq> 0 then Inr (Filter_Regex MatchString md (entries (Regex q')))
          else Inr True)"

section \<open>The vector store\<close>

text \<open>
  The persisted collection is the \<^verbatim>\<open>chromem-go\<close> library. Its types are records with the
  fields the code writes or reads (prefixed, since \<^verbatim>\<open>Document\<close> has fields of the same
  names), and a collection is the pair of its two operations that the code calls, with
  an error type \<open>'e\<close> and a context type \<open>'ctx\<close>.
\<close>

record chromem_Document =
  doc_ID :: string
  doc_Metadata :: "string gomap"
  doc_Content :: string

record chromem_QueryOptions =
  QueryText :: string
  Where :: "string gomap"
  NResults :: int

record chromem_Result =
  res_Metadata :: "string gomap"
  res_Content :: string
  res_Similarity :: "32 word"

record ('ctx, 'e) chromem_Collection =
  AddDocuments :: "'ctx \<Rightarrow> chromem_Document list \<Rightarrow> int \<Rightarrow> 'e option"
  QueryWithOptions :: "'ctx \<Rightarrow> chromem_QueryOptions \<Rightarrow> 'e + chromem_Result list"

record ('ctx, 'e) chromemStore =
  collection :: "('ctx, 'e) chromem_Collection"
  concurrency :: int

subsection \<open>md5hash\<close>

definition hextable :: string where
  "hextable = ''0123456789abcdef''"

fun EncodeToString :: "8 word list \<Rightarrow> string" where
  \<comment> \<open>\<^verbatim>\<open>encoding/hex\<close>: two lower-case digits a byte, the high four bits first\<close>
  "EncodeToString [] = []"
| "EncodeToString (b # bs) =
     hextable ! unat (drop_bit 4 b) # hextable ! unat (b AND 0x0f) # EncodeToString bs"

definition md5hash :: "(string \<Rightarrow> 8 word list) \<Rightarrow> string \<Rightarrow> string" where
  \<comment> \<open>\<open>md5_Sum\<close> is \<^verbatim>\<open>md5.Sum\<close> on the bytes of the string\<close>
  "md5hash md5_Sum s = EncodeToString (md5_Sum s)"

subsection \<open>Add\<close>

definition Add_task :: "(string \<Rightarrow> 8 word list) \<Rightarrow> string gomap Document \<Rightarrow> chromem_Document" where
  \<comment> \<open>the record that the task started for \<^verbatim>\<open>doc\<close> stores in \<^verbatim>\<open>documents[i]\<close>\<close>
  "Add_task md5_Sum doc =
     \<lparr>doc_ID = md5hash md5_Sum (Content doc), doc_Metadata = Metadata doc, doc_Content = Content doc\<rparr>"

definition Add_documents ::
  "(string \<Rightarrow> 8 word list) \<Rightarrow> string gomap Document list \<Rightarrow> chromem_Document list" where
  \<comment> \<open>the slice \<^verbatim>\<open>documents\<close> once \<^verbatim>\<open>wg.Wait()\<close> has returned: task \<open>i\<close> alone writes
      index \<open>i\<close>, from its own copies of \<^verbatim>\<open>i\<close> and \<^verbatim>\<open>doc\<close>, so the schedule does not
      show in it\<close>
  "Add_documents md5_Sum docs = map (Add_task md5_Sum) docs"

definition Add ::
  "(string \<Rightarrow> 8 word list) \<Rightarrow> ('ctx, 'e) chromemStore \<Rightarrow> 'ctx \<Rightarrow> string gomap Document list
     \<Rightarrow> chromem_Document list list \<times> ('e fault + unit)" where
  \<comment> \<open>the first component lists the batches that the call hands to \<^verbatim>\<open>AddDocuments\<close>.
      \<^verbatim>\<open>sem <- struct{}{}\<close> is sent by the loop itself, before the task starts: on a
      channel of capacity 0 the first send never completes\<close>
  "Add md5_Sum c ctx docs =
     (if concurrency c < 0 then ([], Inl (Panic MakechanSizeOutOfRange))
      else if concurrency c = 0 \<and> docs \<noteq> [] then ([], Inl Blocked)
      else let documents = Add_documents md5_Sum docs
           in ([documents],
               case AddDocuments (collection c) ctx documents (concurrency c) of
                 Some err \<Rightarrow> Inl (Error err)
               | None \<Rightarrow> Inr ()))"

subsection \<open>Search\<close>

definition Search_result :: "chromem_Result \<Rightarrow> string gomap Result" where
  \<comment> \<open>the \<^verbatim>\<open>Result\<close> built in the loop body\<close>
  "Search_result r =
     \<lparr>Document = \<lparr>Content = res_Content r, Metadata = res_Metadata r\<rparr>, Score = res_Similarity r\<rparr>"

fun Search_loop ::
  "('re \<Rightarrow> string \<Rightarrow> bool) \<Rightarrow> 're Query option \<Rightarrow> chromem_Result list
     \<Rightarrow> string gomap Result list \<Rightarrow> panic + string gomap Result list" where
  \<comment> \<open>\<^verbatim>\<open>for _, r := range res\<close>, with \<^verbatim>\<open>results\<close> as built so far; the filter is called
      on \<^verbatim>\<open>query\<close>, the argument of \<^verbatim>\<open>Search\<close>\<close>
  "Search_loop MatchString query [] results = Inr results"
| "Search_loop MatchString query (r # res) results =
     (let result = Search_result r in
      case Filter MatchString query result of
        Inl p \<Rightarrow> Inl p
      | Inr keep \<Rightarrow>
          Search_loop MatchString query res (if keep then results @ [result] else results))"

definition Search ::
  "('re \<Rightarrow> string \<Rightarrow> bool) \<Rightarrow> ('ctx, 'e) chromemStore \<Rightarrow> 'ctx \<Rightarrow> 're Query option
     \<Rightarrow> chromem_QueryOptions list \<times> ('e fault + string gomap Result list)" where
  \<comment> \<open>the first component lists the lookups that the call makes on the collection\<close>
  "Search MatchString c ctx query =
     (let q = setOrDefault query;
          opt = \<lparr>QueryText = Query q, Where = Exact q, NResults = Number q\<rparr>
      in ([opt],
          case QueryWithOptions (collection c) ctx opt of
            Inl err \<Rightarrow> Inl (Error err)
          | Inr res \<Rightarrow>
              (case Search_loop MatchString query res [] of
                 Inl p \<Rightarrow> Inl (Panic p)
               | Inr results \<Rightarrow> Inr results)))"

section \<open>chunkMarkdown\<close>

text \<open>
  \<^verbatim>\<open>strconv.Itoa\<close>: the decimal digits of an \<^verbatim>\<open>int\<close>, with a minus sign when negative.
\<close>

fun formatDecimal :: "nat \<Rightarrow> string" where
  "formatDecimal n =
     (if n < 10 then [''0123456789'' ! n]
      else formatDecimal (n div 10) @ [''0123456789'' ! (n mod 10)])"

definition Itoa :: "int \<Rightarrow> string" where
  "Itoa i = (if i < 0 then CHR ''-'' # formatDecimal (nat (- i)) else formatDecimal (nat i))"

text \<open>
  \<^verbatim>\<open>chunkMarkdown\<close> writes to the map it is given and puts that same map in every document,
  so here a map is an address in a store of maps, and \<open>ref Document\<close> is a document
  holding such an address. \<open>None\<close> is the nil map.
\<close>

type_synonym ref = nat

record store =
  cells :: "ref \<Rightarrow> string gomap"
  fresh :: ref

definition make_map :: "store \<Rightarrow> ref \<times> store" where
  \<comment> \<open>\<^verbatim>\<open>make(map[string]string)\<close>: a new, empty map\<close>
  "make_map s = (fresh s, \<lparr>cells = (cells s)(fresh s := []), fresh = Suc (fresh s)\<rparr>)"

definition store_assign :: "store \<Rightarrow> ref \<Rightarrow> string \<Rightarrow> string \<Rightarrow> store" where
  \<comment> \<open>\<^verbatim>\<open>m[k] = v\<close> on the map at address \<open>m\<close>\<close>
  "store_assign s m k v = s\<lparr>cells := (cells s)(m := assign (cells s m) k v)\<rparr>"

definition read_Document :: "store \<Rightarrow> ref Document \<Rightarrow> string gomap Document" where
  \<comment> \<open>a document as a reader finds it in store \<open>s\<close>\<close>
  "read_Document s d = \<lparr>Content = Content d, Metadata = cells s (Metadata d)\<rparr>"

fun chunkMarkdown_loop :: "ref \<Rightarrow> nat \<Rightarrow> string list \<Rightarrow> store \<Rightarrow> ref Document list \<times> store" where
  \<comment> \<open>\<^verbatim>\<open>for i, chunk := range chunks\<close> from index \<open>i\<close> on; returns \<^verbatim>\<open>documents[i:]\<close>\<close>
  "chunkMarkdown_loop metadata i [] s = ([], s)"
| "chunkMarkdown_loop metadata i (chunk # chunks) s =
     (let s' = store_assign s metadata ''chunk'' (Itoa (int i));
          (documents, s'') = chunkMarkdown_loop metadata (Suc i) chunks s'
      in (\<lparr>Content = chunk, Metadata = metadata\<rparr> # documents, s''))"

definition chunkMarkdown ::
  "(string \<Rightarrow> 'e + string list) \<Rightarrow> string \<Rightarrow> ref option \<Rightarrow> store
     \<Rightarrow> 'e + ref Document list \<times> store" where
  \<comment> \<open>\<open>SplitText\<close> is the markdown splitter of \<^verbatim>\<open>langchaingo\<close>\<close>
  "chunkMarkdown SplitText md metadata s =
     (case SplitText md of
        Inl err \<Rightarrow> Inl err
      | Inr chunks \<Rightarrow>
          (let (metadata', s') = (case metadata of None \<Rightarrow> make_map s | Some m \<Rightarrow> (m, s))
           in Inr (chunkMarkdown_loop metadata' 0 chunks s')))"

section \<open>Properties of the map model\<close>

lemma len_eq_0_iff: "len m = 0 \<longleftrightarrow> m = []"
  by (cases m) (simp_all add: len_def entries_def)

lemma entries_iff: "(k, v) \<in> set (entries m) \<longleftrightarrow> map_of m k = Some v"
proof -
  have "map_of (entries m) k = Some v \<longleftrightarrow> (k, v) \<in> set (entries m)"
    unfolding entries_def by (rule map_of_eq_Some_iff) (rule AList.distinct_clearjunk)
  then show ?thesis
    by (simp add: entries_def AList.map_of_clearjunk)
qed

lemma index_eq_iff:
  "index md k = v \<longleftrightarrow> map_of md k = Some v \<or> (map_of md k = None \<and> v = [])"
  by (auto simp: index_def split: option.splits)

section \<open>Properties of the query builder\<close>

lemma WithExact_loop_even:
  "even (length kv) \<Longrightarrow> \<exists>exact'. WithExact_loop exact kv = Inr exact'"
  by (induction exact kv rule: WithExact_loop.induct) simp_all

lemma WithRegex_loop_compiles:
  "even (length kv) \<Longrightarrow> \<forall>i. 2 * i + 1 < length kv \<longrightarrow> Compile (kv ! (2 * i + 1)) \<noteq> None
    \<Longrightarrow> \<exists>regex'. WithRegex_loop Compile regex kv = Inr regex'"
proof (induction Compile regex kv rule: WithRegex_loop.induct)
  case (1 Compile regex)
  then show ?case by simp
next
  case (2 Compile regex k)
  then show ?case by simp
next
  case (3 Compile regex k p kv)
  from "3.prems"(2) [rule_format, of 0] obtain re where re: "Compile p = Some re"
    by auto
  have rest: "\<forall>i. 2 * i + 1 < length kv \<longrightarrow> Compile (kv ! (2 * i + 1)) \<noteq> None"
  proof (intro allI impI)
    fix i assume "2 * i + 1 < length kv"
    with "3.prems"(2) [rule_format, of "Suc i"] show "Compile (kv ! (2 * i + 1)) \<noteq> None"
      by simp
  qed
  from "3.prems"(1) have "even (length kv)" by simp
  from "3.IH" [OF re this rest] re show ?case by simp
qed

lemma WithRegex_loop_MustCompile:
  "even (length kv) \<Longrightarrow> 2 * i + 1 < length kv \<Longrightarrow> Compile (kv ! (2 * i + 1)) = None
    \<Longrightarrow> \<exists>p. WithRegex_loop Compile regex kv = Inl (MustCompile p) \<and> Compile p = None"
proof (induction Compile regex kv arbitrary: i rule: WithRegex_loop.induct)
  case (1 Compile regex)
  then show ?case by simp
next
  case (2 Compile regex k)
  then show ?case by simp
next
  case (3 Compile regex k p kv)
  show ?case
  proof (cases "Compile p")
    case None
    then show ?thesis by simp
  next
    case (Some re)
    with "3.prems" obtain j where j: "i = Suc j"
      by (cases i) auto
    from "3.prems" j have "even (length kv)" "2 * j + 1 < length kv"
      "Compile (kv ! (2 * j + 1)) = None"
      by simp_all
    from "3.IH" [OF Some this] Some show ?thesis by simp
  qed
qed

text \<open>
  C5. \<^verbatim>\<open>NewQuery(t)\<close> is claimed to return a query with text \<open>t\<close> and \<^verbatim>\<open>Number\<close> 1.
  The code calls \<^verbatim>\<open>WithQuery\<close> on \<^verbatim>\<open>&Query{}\<close>, which is not nil, so \<^verbatim>\<open>setOrDefault\<close>
  returns it as it is: the text is \<open>t\<close>, and \<^verbatim>\<open>Number\<close> is the zero value 0, where the
  same method on a nil query gives 1.
\<close>

theorem NewQuery_Number_zero:
  "Query (NewQuery t) = t \<and> Number (NewQuery t) = 0 \<and> Number (WithQuery None t) = 1"
  by (simp add: NewQuery_def WithQuery_def setOrDefault_def)

text \<open>
  C6. Each builder method called on a nil query succeeds and returns the default query
  (\<^verbatim>\<open>Number\<close> 1, every other field zero) with the one field that the method sets:
  \<^verbatim>\<open>WithQuery\<close> and \<^verbatim>\<open>WithNumber\<close> for every argument, \<^verbatim>\<open>WithExact\<close> for every list of
  even length, \<^verbatim>\<open>WithRegex\<close> for every list of even length whose patterns (the elements
  at odd positions) compile.
\<close>

theorem With_nil_receiver:
  "WithQuery None t = \<lparr>Query = t, Exact = [], Regex = [], Number = 1\<rparr>
   \<and> WithNumber None n = \<lparr>Query = [], Exact = [], Regex = [], Number = n\<rparr>
   \<and> (even (length kv) \<longrightarrow>
        (\<exists>exact. WithExact_loop [] kv = Inr exact
           \<and> WithExact None kv = Inr \<lparr>Query = [], Exact = exact, Regex = [], Number = 1\<rparr>))
   \<and> (even (length kv) \<and> (\<forall>i. 2 * i + 1 < length kv \<longrightarrow> Compile (kv ! (2 * i + 1)) \<noteq> None) \<longrightarrow>
        (\<exists>regex. WithRegex_loop Compile [] kv = Inr regex
           \<and> WithRegex Compile None kv = Inr \<lparr>Query = [], Exact = [], Regex = regex, Number = 1\<rparr>))"
proof (intro conjI impI)
  show "WithQuery None t = \<lparr>Query = t, Exact = [], Regex = [], Number = 1\<rparr>"
    by (simp add: WithQuery_def setOrDefault_def)
  show "WithNumber None n = \<lparr>Query = [], Exact = [], Regex = [], Number = n\<rparr>"
    by (simp add: WithNumber_def setOrDefault_def)
next
  assume "even (length kv)"
  with WithExact_loop_even [of kv "[]"] obtain exact where "WithExact_loop [] kv = Inr exact"
    by blast
  with \<open>even (length kv)\<close>
  show "\<exists>exact. WithExact_loop [] kv = Inr exact
           \<and> WithExact None kv = Inr \<lparr>Query = [], Exact = exact, Regex = [], Number = 1\<rparr>"
    by (simp add: WithExact_def setOrDefault_def)
next
  assume a: "even (length kv) \<and> (\<forall>i. 2 * i + 1 < length kv \<longrightarrow> Compile (kv ! (2 * i + 1)) \<noteq> None)"
  with WithRegex_loop_compiles [of kv Compile "[]"] obtain regex
    where "WithRegex_loop Compile [] kv = Inr regex"
    by blast
  with a
  show "\<exists>regex. WithRegex_loop Compile [] kv = Inr regex
           \<and> WithRegex Compile None kv = Inr \<lparr>Query = [], Exact = [], Regex = regex, Number = 1\<rparr>"
    by (simp add: WithRegex_def setOrDefault_def)
qed

theorem With_nil_receiver_witness:
  "even (length [''title'', ''Walden'', ''author'', ''Thoreau''])
   \<and> (\<lambda>p. if p = ''('' then None else Some p) ''Walden'' \<noteq> None
   \<and> (\<lambda>p. if p = ''('' then None else Some p) ''Thoreau'' \<noteq> None
   \<and> WithQuery None ''sky'' = \<lparr>Query = ''sky'', Exact = [], Regex = ([] :: string gomap), Number = 1\<rparr>
   \<and> WithExact None [''title'', ''Walden'', ''author'', ''Thoreau'']
       = Inr \<lparr>Query = [], Exact = [(''title'', ''Walden''), (''author'', ''Thoreau'')],
              Regex = ([] :: string gomap), Number = 1\<rparr>
   \<and> WithRegex (\<lambda>p. if p = ''('' then None else Some p) None
         [''title'', ''Walden'', ''author'', ''Thoreau'']
       = Inr \<lparr>Query = [], Exact = [],
              Regex = [(''title'', ''Walden''), (''author'', ''Thoreau'')], Number = 1\<rparr>"
proof -
  let ?kv = "[''title'', ''Walden'', ''author'', ''Thoreau'']"
  let ?C = "\<lambda>p. if p = ''('' then None else Some p"
  have e: "even (length ?kv)" by simp
  have c: "\<forall>i. 2 * i + 1 < length ?kv \<longrightarrow> ?C (?kv ! (2 * i + 1)) \<noteq> None"
    by (simp add: nth_Cons split: nat.split)
  have x: "WithExact_loop [] ?kv = Inr [(''title'', ''Walden''), (''author'', ''Thoreau'')]"
    by (simp add: assign_def)
  have r: "WithRegex_loop ?C [] ?kv = Inr [(''title'', ''Walden''), (''author'', ''Thoreau'')]"
    by (simp add: assign_def)
  note builder = With_nil_receiver [of "''sky''" 0 ?kv ?C]
  from builder
  have q: "WithQuery None ''sky'' = \<lparr>Query = ''sky'', Exact = [], Regex = ([] :: string gomap), Number = 1\<rparr>"
    by (rule conjunct1)
  from builder e
  have "\<exists>exact. WithExact_loop [] ?kv = Inr exact
           \<and> WithExact None ?kv = Inr \<lparr>Query = [], Exact = exact, Regex = ([] :: string gomap), Number = 1\<rparr>"
    by blast
  with x have ex: "WithExact None ?kv
      = Inr \<lparr>Query = [], Exact = [(''title'', ''Walden''), (''author'', ''Thoreau'')],
             Regex = ([] :: string gomap), Number = 1\<rparr>"
    by auto
  from builder e c
  have "\<exists>regex. WithRegex_loop ?C [] ?kv = Inr regex
           \<and> WithRegex ?C None ?kv = Inr \<lparr>Query = [], Exact = [], Regex = regex, Number = 1\<rparr>"
    by blast
  with r have rx: "WithRegex ?C None ?kv
      = Inr \<lparr>Query = [], Exact = [],
             Regex = [(''title'', ''Walden''), (''author'', ''Thoreau'')], Number = 1\<rparr>"
    by auto
  have "?C ''Walden'' \<noteq> None" and "?C ''Thoreau'' \<noteq> None"
    by simp_all
  with e q ex rx show ?thesis
    by blast
qed

text \<open>
  C8. \<^verbatim>\<open>WithExact\<close> and \<^verbatim>\<open>WithRegex\<close> panic on a list of odd length, and \<^verbatim>\<open>WithRegex\<close>
  panics on a list of even length in which some pattern does not compile. Neither method
  has an error result: a panic is the only way they fail.
\<close>

theorem With_panics:
  "(odd (length kv) \<longrightarrow>
      WithExact q kv = Inl KeyValuesNotInPairs \<and> WithRegex Compile q kv = Inl KeyValuesNotInPairs)
   \<and> (even (length kv) \<and> (\<exists>i. 2 * i + 1 < length kv \<and> Compile (kv ! (2 * i + 1)) = None) \<longrightarrow>
        (\<exists>p. WithRegex Compile q kv = Inl (MustCompile p) \<and> Compile p = None))"
proof -
  have pairs: "WithExact q kv = Inl KeyValuesNotInPairs \<and> WithRegex Compile q kv = Inl KeyValuesNotInPairs"
    if "odd (length kv)"
    using that by (simp add: WithExact_def WithRegex_def odd_iff_mod_2_eq_one)
  have pattern: "\<exists>p. WithRegex Compile q kv = Inl (MustCompile p) \<and> Compile p = None"
    if a: "even (length kv)" and b: "\<exists>i. 2 * i + 1 < length kv \<and> Compile (kv ! (2 * i + 1)) = None"
  proof -
    from b obtain i where "2 * i + 1 < length kv" "Compile (kv ! (2 * i + 1)) = None"
      by blast
    with a WithRegex_loop_MustCompile [of kv i Compile "[]"]
    obtain p where "WithRegex_loop Compile [] kv = Inl (MustCompile p)" "Compile p = None"
      by blast
    with a show ?thesis
      by (simp add: WithRegex_def)
  qed
  from pairs pattern show ?thesis by blast
qed

theorem With_panics_witness:
  "odd (length [''title''])
   \<and> even (length [''title'', ''(''])
   \<and> (\<exists>i. 2 * i + 1 < length [''title'', ''(''] 
         \<and> (\<lambda>p. if p = ''('' then None else Some p) ([''title'', ''(''] ! (2 * i + 1)) = None)
   \<and> WithExact (None :: string Query option) [''title''] = Inl KeyValuesNotInPairs
   \<and> WithRegex (\<lambda>p. if p = ''('' then None else Some p) None [''title''] = Inl KeyValuesNotInPairs
   \<and> (\<exists>p. WithRegex (\<lambda>p. if p = ''('' then None else Some p) None [''title'', ''(''] = Inl (MustCompile p))"
proof -
  let ?C = "\<lambda>p. if p = ''('' then None else Some p"
  have o: "odd (length [''title''])" by simp
  have e: "even (length [''title'', ''(''])" by simp
  have "2 * 0 + 1 < length [''title'', ''(''] \<and> ?C ([''title'', ''(''] ! (2 * 0 + 1)) = None"
    by simp
  then have b: "\<exists>i. 2 * i + 1 < length [''title'', ''(''] \<and> ?C ([''title'', ''(''] ! (2 * i + 1)) = None"
    by (rule exI)
  from With_panics [of "[''title'']" "None :: string Query option" ?C] o
    With_panics [of "[''title'', ''('']" "None :: string Query option" ?C] e b
  show ?thesis by blast
qed

section \<open>Properties of Filter\<close>

lemma Filter_Exact_iff: "Filter_Exact md kvs \<longleftrightarrow> (\<forall>(k, v) \<in> set kvs. index md k = v)"
  by (induction md kvs rule: Filter_Exact.induct) auto

lemma Filter_Regex_iff:
  "Filter_Regex M md krs \<longleftrightarrow> (\<forall>(k, r) \<in> set krs. M r (index md k))"
  by (induction M md krs rule: Filter_Regex.induct) auto

text \<open>
  Both loops depend on the set of entries only, so the order in which \<^verbatim>\<open>range\<close> visits a
  map does not show in the result.
\<close>

lemma Filter_Exact_order: "set kvs = set kvs' \<Longrightarrow> Filter_Exact md kvs = Filter_Exact md kvs'"
  by (simp add: Filter_Exact_iff)

lemma Filter_Regex_order:
  "set krs = set krs' \<Longrightarrow> Filter_Regex M md krs = Filter_Regex M md krs'"
  by (simp add: Filter_Regex_iff)

lemma Filter_Exact_entries:
  "Filter_Exact md (entries ex) \<longleftrightarrow> (\<forall>k v. map_of ex k = Some v \<longrightarrow> index md k = v)"
proof -
  have "Filter_Exact md (entries ex) \<longleftrightarrow> (\<forall>k v. (k, v) \<in> set (entries ex) \<longrightarrow> index md k = v)"
    by (auto simp: Filter_Exact_iff)
  then show ?thesis
    by (simp add: entries_iff)
qed

lemma Filter_Some: "\<exists>keep. Filter M (Some q) r = Inr keep"
  by (auto simp: Filter_def Let_def)

text \<open>
  C3, as the code has it. For a query with non-empty \<^verbatim>\<open>Exact\<close>, \<^verbatim>\<open>Filter\<close> retains \<open>r\<close> if
  and only if every key of \<^verbatim>\<open>Exact\<close> either is in the metadata of \<open>r\<close> with exactly the
  required value, or is not in the metadata while the required value is the empty string:
  \<^verbatim>\<open>md[k]\<close> reads a missing key as \<^verbatim>\<open>""\<close>. So a missing key filters \<open>r\<close> out exactly when
  its required value is not empty.
\<close>

theorem Filter_Exact_zero_value:
  assumes "len (Exact q) \<noteq> 0"
  shows "Filter MatchString (Some q) r =
           Inr (\<forall>k v. map_of (Exact q) k = Some v \<longrightarrow>
                  map_of (Metadata (Document r)) k = Some v
                  \<or> (map_of (Metadata (Document r)) k = None \<and> v = []))"
  using assms by (simp add: Filter_def Let_def Filter_Exact_entries index_eq_iff)

theorem Filter_Exact_zero_value_witness:
  "len (Exact \<lparr>Query = [], Exact = [(''author'', ''Thoreau''), (''lang'', [])],
              Regex = ([] :: string gomap), Number = 1\<rparr>) \<noteq> 0
   \<and> Filter (=) (Some \<lparr>Query = [], Exact = [(''author'', ''Thoreau''), (''lang'', [])],
                        Regex = [], Number = 1\<rparr>)
        \<lparr>Document = \<lparr>Content = ''Economy'', Metadata = [(''author'', ''Thoreau'')]\<rparr>, Score = 0\<rparr>
       = Inr True
   \<and> Filter (=) (Some \<lparr>Query = [], Exact = [(''author'', ''Thoreau''), (''lang'', [])],
                        Regex = [], Number = 1\<rparr>)
        \<lparr>Document = \<lparr>Content = ''Loomings'', Metadata = [(''author'', ''Melville'')]\<rparr>, Score = 0\<rparr>
       = Inr False"
proof -
  let ?q = "\<lparr>Query = [], Exact = [(''author'', ''Thoreau''), (''lang'', [])],
             Regex = ([] :: string gomap), Number = 1\<rparr>"
  let ?r = "\<lparr>Document = \<lparr>Content = ''Economy'', Metadata = [(''author'', ''Thoreau'')]\<rparr>,
             Score = 0\<rparr>"
  let ?r' = "\<lparr>Document = \<lparr>Content = ''Loomings'', Metadata = [(''author'', ''Melville'')]\<rparr>,
             Score = 0\<rparr>"
  have n: "len (Exact ?q) \<noteq> 0"
    by (simp add: len_def entries_def)
  have "Filter (=) (Some ?q) ?r = Inr True"
    unfolding Filter_Exact_zero_value [OF n, of "(=)" ?r] by simp
  moreover have "Filter (=) (Some ?q) ?r' = Inr False"
    unfolding Filter_Exact_zero_value [OF n, of "(=)" ?r']
    by (auto intro!: exI [of _ "''author''"])
  ultimately show ?thesis
    using n by blast
qed

text \<open>
  C3 as it is claimed, that a key missing from the metadata always filters the result
  out, fails: \<^verbatim>\<open>Exact\<close> requires \<^verbatim>\<open>""\<close> for the key \<^verbatim>\<open>lang\<close>, the metadata has no such
  key, and the result is retained.
\<close>

theorem Filter_absent_key_counterexample:
  "len (Exact \<lparr>Query = [], Exact = [(''lang'', [])], Regex = ([] :: string gomap), Number = 1\<rparr>) \<noteq> 0
   \<and> map_of (Exact \<lparr>Query = [], Exact = [(''lang'', [])], Regex = ([] :: string gomap), Number = 1\<rparr>)
        ''lang'' = Some []
   \<and> map_of (Metadata (Document \<lparr>Document = \<lparr>Content = ''text'', Metadata = []\<rparr>, Score = 0\<rparr>))
        ''lang'' = None
   \<and> Filter (=) (Some \<lparr>Query = [], Exact = [(''lang'', [])], Regex = [], Number = 1\<rparr>)
        \<lparr>Document = \<lparr>Content = ''text'', Metadata = []\<rparr>, Score = 0\<rparr> = Inr True"
  by (simp add: Filter_def len_def entries_def index_def)

text \<open>
  C4. When \<^verbatim>\<open>Exact\<close> is not empty, \<^verbatim>\<open>Filter\<close> returns what the loop over \<^verbatim>\<open>Exact\<close> returns,
  and the same for every other \<^verbatim>\<open>Regex\<close> map and every other matcher: \<^verbatim>\<open>Regex\<close> is not
  looked at. The loop over \<^verbatim>\<open>Regex\<close> decides only when \<^verbatim>\<open>Exact\<close> is empty.
\<close>

theorem Filter_Exact_precedence:
  "(len (Exact q) \<noteq> 0 \<longrightarrow>
      Filter MatchString (Some q) r = Inr (Filter_Exact (Metadata (Document r)) (entries (Exact q)))
      \<and> (\<forall>regex MatchString'.
            Filter MatchString' (Some (q\<lparr>Regex := regex\<rparr>)) r = Filter MatchString (Some q) r))
   \<and> (len (Exact q) = 0 \<and> len (Regex q) \<noteq> 0 \<longrightarrow>
        Filter MatchString (Some q) r
          = Inr (Filter_Regex MatchString (Metadata (Document r)) (entries (Regex q))))"
  by (simp add: Filter_def Let_def)

theorem Filter_Exact_precedence_witness:
  "len (Exact \<lparr>Query = [], Exact = [(''author'', ''Thoreau'')],
              Regex = [(''author'', ''Melville'')], Number = 1\<rparr>) \<noteq> 0
   \<and> len (Regex \<lparr>Query = [], Exact = [(''author'', ''Thoreau'')],
              Regex = [(''author'', ''Melville'')], Number = 1\<rparr>) \<noteq> 0
   \<and> Filter (=) (Some \<lparr>Query = [], Exact = [(''author'', ''Thoreau'')],
                        Regex = [(''author'', ''Melville'')], Number = 1\<rparr>)
        \<lparr>Document = \<lparr>Content = ''Economy'', Metadata = [(''author'', ''Thoreau'')]\<rparr>, Score = 0\<rparr>
       = Inr True
   \<and> Filter (=) (Some \<lparr>Query = [], Exact = [(''author'', ''Thoreau'')],
                        Regex = [], Number = 1\<rparr>)
        \<lparr>Document = \<lparr>Content = ''Economy'', Metadata = [(''author'', ''Thoreau'')]\<rparr>, Score = 0\<rparr>
       = Inr True
   \<and> len (Exact \<lparr>Query = [], Exact = [], Regex = [(''author'', ''Melville'')], Number = 1\<rparr>) = 0
   \<and> Filter (=) (Some \<lparr>Query = [], Exact = [], Regex = [(''author'', ''Melville'')], Number = 1\<rparr>)
        \<lparr>Document = \<lparr>Content = ''Economy'', Metadata = [(''author'', ''Thoreau'')]\<rparr>, Score = 0\<rparr>
       = Inr False"
proof -
  let ?q = "\<lparr>Query = [], Exact = [(''author'', ''Thoreau'')],
             Regex = [(''author'', ''Melville'')], Number = 1\<rparr>"
  let ?q' = "\<lparr>Query = [], Exact = [], Regex = [(''author'', ''Melville'')], Number = 1\<rparr>"
  let ?r = "\<lparr>Document = \<lparr>Content = ''Economy'', Metadata = [(''author'', ''Thoreau'')]\<rparr>,
             Score = 0\<rparr>"
  have e: "len (Exact ?q) \<noteq> 0" and x: "len (Regex ?q) \<noteq> 0"
    and e': "len (Exact ?q') = 0" and x': "len (Regex ?q') \<noteq> 0"
    by (simp_all add: len_def entries_def)
  from Filter_Exact_precedence [of ?q "(=)" ?r] e
  have 1: "Filter (=) (Some ?q) ?r = Inr (Filter_Exact (Metadata (Document ?r)) (entries (Exact ?q)))"
    and 2: "Filter (=) (Some (?q\<lparr>Regex := []\<rparr>)) ?r = Filter (=) (Some ?q) ?r"
    by blast+
  from Filter_Exact_precedence [of ?q' "(=)" ?r] e' x'
  have 3: "Filter (=) (Some ?q') ?r
             = Inr (Filter_Regex (=) (Metadata (Document ?r)) (entries (Regex ?q')))"
    by blast
  from 1 have a: "Filter (=) (Some ?q) ?r = Inr True"
    by (simp add: entries_def index_def)
  from 2 a have b: "Filter (=) (Some \<lparr>Query = [], Exact = [(''author'', ''Thoreau'')],
                        Regex = [], Number = 1\<rparr>) ?r = Inr True"
    by simp
  from 3 have c: "Filter (=) (Some ?q') ?r = Inr False"
    by (simp add: entries_def index_def)
  from e x e' a b c show ?thesis
    by blast
qed

section \<open>Properties of the vector store\<close>

text \<open>
  The hexadecimal encoding loses nothing: two identifiers are equal only when the two
  digests are.
\<close>

lemma distinct_hextable: "distinct hextable"
  by (simp add: hextable_def)

lemma length_hextable: "length hextable = 16"
  by (simp add: hextable_def)

lemma low_digit_eq: "(b :: 8 word) AND 0x0f = take_bit 4 b"
  by (simp add: take_bit_eq_mask mask_eq_exp_minus_1)

lemma high_digit_less: "unat (drop_bit 4 (b :: 8 word)) < 16"
proof -
  have "unat (drop_bit 4 b) = drop_bit 4 (unat b)"
    by (rule unat_drop_bit_eq)
  also have "\<dots> = unat b div 16"
    by (simp add: drop_bit_eq_div)
  finally show ?thesis
    using unsigned_less [of b, where 'a = nat] by simp
qed

lemma low_digit_less: "unat (take_bit 4 (b :: 8 word)) < 16"
proof -
  have "unat (take_bit 4 b) = take_bit 4 (unat b)"
    by (rule unsigned_take_bit_eq)
  also have "\<dots> < 2 ^ 4"
    by (rule take_bit_nat_less_exp)
  finally show ?thesis by simp
qed

lemma byte_of_digits:
  fixes a b :: "8 word"
  assumes "hextable ! unat (drop_bit 4 a) = hextable ! unat (drop_bit 4 b)"
    and "hextable ! unat (a AND 0x0f) = hextable ! unat (b AND 0x0f)"
  shows "a = b"
proof -
  from assms(1) have "unat (drop_bit 4 a) = unat (drop_bit 4 b)"
    using high_digit_less [of a] high_digit_less [of b]
    by (simp add: nth_eq_iff_index_eq distinct_hextable length_hextable)
  then have high: "drop_bit 4 a = drop_bit 4 b"
    by (simp add: word_unat_eq_iff)
  from assms(2) have "unat (take_bit 4 a) = unat (take_bit 4 b)"
    using low_digit_less [of a] low_digit_less [of b]
    by (simp add: low_digit_eq nth_eq_iff_index_eq distinct_hextable length_hextable)
  then have low: "take_bit 4 a = take_bit 4 b"
    by (simp add: word_unat_eq_iff)
  from high low show ?thesis
    by (metis bits_ident)
qed

lemma EncodeToString_inject: "EncodeToString xs = EncodeToString ys \<Longrightarrow> xs = ys"
proof (induction xs arbitrary: ys)
  case Nil
  then show ?case by (cases ys) simp_all
next
  case (Cons a xs)
  then obtain b ys' where ys: "ys = b # ys'"
    by (cases ys) simp_all
  with Cons.prems have "a = b" and "EncodeToString xs = EncodeToString ys'"
    by (simp_all add: byte_of_digits)
  with Cons.IH ys show ?case by simp
qed

lemma md5hash_eq_iff: "md5hash md5_Sum s = md5hash md5_Sum t \<longleftrightarrow> md5_Sum s = md5_Sum t"
  by (auto simp: md5hash_def dest: EncodeToString_inject)

lemma Add_documents_nth:
  "i < length docs \<Longrightarrow>
     Add_documents md5_Sum docs ! i =
       \<lparr>doc_ID = md5hash md5_Sum (Content (docs ! i)), doc_Metadata = Metadata (docs ! i),
        doc_Content = Content (docs ! i)\<rparr>"
  by (simp add: Add_documents_def Add_task_def)

lemma Add_hands_over:
  "0 < concurrency c \<Longrightarrow>
     Add md5_Sum c ctx docs =
       ([Add_documents md5_Sum docs],
        case AddDocuments (collection c) ctx (Add_documents md5_Sum docs) (concurrency c) of
          Some err \<Rightarrow> Inl (Error err)
        | None \<Rightarrow> Inr ())"
  by (simp add: Add_def Let_def)

text \<open>
  C1. A store made by \<^verbatim>\<open>NewCollection\<close> has \<^verbatim>\<open>runtime.NumCPU()\<close>, at least 1, as its
  \<^verbatim>\<open>concurrency\<close>. On such a store \<^verbatim>\<open>Add\<close> hands one batch to \<^verbatim>\<open>AddDocuments\<close>, and
  returns what that call returns. The batch has one record for each document, in order,
  with the document's \<^verbatim>\<open>Content\<close> and \<^verbatim>\<open>Metadata\<close> and with the hexadecimal MD5 digest
  of the \<^verbatim>\<open>Content\<close> as its identifier. So two documents with the same \<^verbatim>\<open>Content\<close>, in
  one call of \<^verbatim>\<open>Add\<close> or in two, get the same identifier whatever their \<^verbatim>\<open>Metadata\<close>,
  and two identifiers are equal exactly when the digests of the two contents are.
\<close>

theorem Add_identifier_of_content:
  assumes "0 < concurrency c" and "0 < concurrency c'"
  shows "\<exists>documents documents'.
           Add md5_Sum c ctx docs =
             ([documents],
              case AddDocuments (collection c) ctx documents (concurrency c) of
                Some err \<Rightarrow> Inl (Error err)
              | None \<Rightarrow> Inr ())
         \<and> Add md5_Sum c' ctx' docs' =
             ([documents'],
              case AddDocuments (collection c') ctx' documents' (concurrency c') of
                Some err \<Rightarrow> Inl (Error err)
              | None \<Rightarrow> Inr ())
         \<and> length documents = length docs \<and> length documents' = length docs'
         \<and> (\<forall>i < length docs.
               documents ! i =
                 \<lparr>doc_ID = md5hash md5_Sum (Content (docs ! i)),
                  doc_Metadata = Metadata (docs ! i), doc_Content = Content (docs ! i)\<rparr>)
         \<and> (\<forall>j < length docs'.
               documents' ! j =
                 \<lparr>doc_ID = md5hash md5_Sum (Content (docs' ! j)),
                  doc_Metadata = Metadata (docs' ! j), doc_Content = Content (docs' ! j)\<rparr>)
         \<and> (\<forall>i < length docs. \<forall>j < length docs'.
               Content (docs ! i) = Content (docs' ! j) \<longrightarrow>
                 doc_ID (documents ! i) = doc_ID (documents' ! j))
         \<and> (\<forall>i < length docs. \<forall>j < length docs'.
               doc_ID (documents ! i) = doc_ID (documents' ! j) \<longleftrightarrow>
                 md5_Sum (Content (docs ! i)) = md5_Sum (Content (docs' ! j)))"
proof (intro exI conjI)
  show "Add md5_Sum c ctx docs =
          ([Add_documents md5_Sum docs],
           case AddDocuments (collection c) ctx (Add_documents md5_Sum docs) (concurrency c) of
             Some err \<Rightarrow> Inl (Error err)
           | None \<Rightarrow> Inr ())"
    using assms(1) by (rule Add_hands_over)
  show "Add md5_Sum c' ctx' docs' =
          ([Add_documents md5_Sum docs'],
           case AddDocuments (collection c') ctx' (Add_documents md5_Sum docs') (concurrency c') of
             Some err \<Rightarrow> Inl (Error err)
           | None \<Rightarrow> Inr ())"
    using assms(2) by (rule Add_hands_over)
  show "length (Add_documents md5_Sum docs) = length docs"
    and "length (Add_documents md5_Sum docs') = length docs'"
    by (simp_all add: Add_documents_def)
  show "\<forall>i < length docs.
          Add_documents md5_Sum docs ! i =
            \<lparr>doc_ID = md5hash md5_Sum (Content (docs ! i)),
             doc_Metadata = Metadata (docs ! i), doc_Content = Content (docs ! i)\<rparr>"
    by (simp add: Add_documents_nth)
  show "\<forall>j < length docs'.
          Add_documents md5_Sum docs' ! j =
            \<lparr>doc_ID = md5hash md5_Sum (Content (docs' ! j)),
             doc_Metadata = Metadata (docs' ! j), doc_Content = Content (docs' ! j)\<rparr>"
    by (simp add: Add_documents_nth)
  show "\<forall>i < length docs. \<forall>j < length docs'.
          Content (docs ! i) = Content (docs' ! j) \<longrightarrow>
            doc_ID (Add_documents md5_Sum docs ! i) = doc_ID (Add_documents md5_Sum docs' ! j)"
    by (simp add: Add_documents_nth)
  show "\<forall>i < length docs. \<forall>j < length docs'.
          doc_ID (Add_documents md5_Sum docs ! i) = doc_ID (Add_documents md5_Sum docs' ! j) \<longleftrightarrow>
            md5_Sum (Content (docs ! i)) = md5_Sum (Content (docs' ! j))"
    by (simp add: Add_documents_nth md5hash_eq_iff)
qed

theorem Add_identifier_of_content_witness:
  "0 < concurrency
         \<lparr>collection = \<lparr>AddDocuments = (\<lambda>ctx docs n. None :: string option),
                        QueryWithOptions = (\<lambda>ctx opt. Inr [])\<rparr>,
          concurrency = 4\<rparr>
   \<and> Add (map (\<lambda>c. of_nat (of_char c)))
       \<lparr>collection = \<lparr>AddDocuments = (\<lambda>ctx docs n. None :: string option),
                      QueryWithOptions = (\<lambda>ctx opt. Inr [])\<rparr>,
        concurrency = 4\<rparr> ()
       [\<lparr>Content = ''The sky is blue.'', Metadata = [(''title'', ''Optics'')]\<rparr>]
     = ([[\<lparr>doc_ID = md5hash (map (\<lambda>c. of_nat (of_char c))) ''The sky is blue.'',
           doc_Metadata = [(''title'', ''Optics'')], doc_Content = ''The sky is blue.''\<rparr>]],
        Inr ())
   \<and> Add (map (\<lambda>c. of_nat (of_char c)))
       \<lparr>collection = \<lparr>AddDocuments = (\<lambda>ctx docs n. None :: string option),
                      QueryWithOptions = (\<lambda>ctx opt. Inr [])\<rparr>,
        concurrency = 4\<rparr> ()
       [\<lparr>Content = ''The sky is blue.'', Metadata = []\<rparr>]
     = ([[\<lparr>doc_ID = md5hash (map (\<lambda>c. of_nat (of_char c))) ''The sky is blue.'',
           doc_Metadata = [], doc_Content = ''The sky is blue.''\<rparr>]],
        Inr ())"
proof -
  let ?S = "map (\<lambda>c. of_nat (of_char c)) :: string \<Rightarrow> 8 word list"
  let ?c = "\<lparr>collection = \<lparr>AddDocuments = (\<lambda>ctx docs n. None :: string option),
                            QueryWithOptions = (\<lambda>ctx opt. Inr [])\<rparr>,
             concurrency = 4\<rparr> :: (unit, string) chromemStore"
  let ?d = "\<lparr>Content = ''The sky is blue.'', Metadata = [(''title'', ''Optics'')]\<rparr>"
  let ?d' = "\<lparr>Content = ''The sky is blue.'', Metadata = ([] :: string gomap)\<rparr>"
  have pos: "0 < concurrency ?c"
    by simp
  from Add_identifier_of_content [OF pos pos, of ?S "()" "[?d]" "()" "[?d']"]
  obtain documents documents' where
    add: "Add ?S ?c () [?d] =
            ([documents],
             case AddDocuments (collection ?c) () documents (concurrency ?c) of
               Some err \<Rightarrow> Inl (Error err) | None \<Rightarrow> Inr ())"
    and add': "Add ?S ?c () [?d'] =
            ([documents'],
             case AddDocuments (collection ?c) () documents' (concurrency ?c) of
               Some err \<Rightarrow> Inl (Error err) | None \<Rightarrow> Inr ())"
    and len: "length documents = length [?d]" "length documents' = length [?d']"
    and nth: "\<forall>i < length [?d]. documents ! i =
                \<lparr>doc_ID = md5hash ?S (Content ([?d] ! i)),
                 doc_Metadata = Metadata ([?d] ! i), doc_Content = Content ([?d] ! i)\<rparr>"
    and nth': "\<forall>j < length [?d']. documents' ! j =
                \<lparr>doc_ID = md5hash ?S (Content ([?d'] ! j)),
                 doc_Metadata = Metadata ([?d'] ! j), doc_Content = Content ([?d'] ! j)\<rparr>"
    by blast
  from len(1) nth have "documents =
      [\<lparr>doc_ID = md5hash ?S ''The sky is blue.'',
        doc_Metadata = [(''title'', ''Optics'')], doc_Content = ''The sky is blue.''\<rparr>]"
    by (cases documents) simp_all
  moreover from len(2) nth' have "documents' =
      [\<lparr>doc_ID = md5hash ?S ''The sky is blue.'',
        doc_Metadata = [], doc_Content = ''The sky is blue.''\<rparr>]"
    by (cases documents') simp_all
  ultimately show ?thesis
    using pos add add' by simp
qed

lemma Search_loop_Some:
  "Search_loop M (Some q) res results =
     Inr (results @ filter (\<lambda>r. Filter M (Some q) r = Inr True) (map Search_result res))"
proof (induction res arbitrary: results)
  case Nil
  then show ?case by simp
next
  case (Cons r res)
  obtain keep where keep: "Filter M (Some q) (Search_result r) = Inr keep"
    using Filter_Some by blast
  show ?case
    by (cases keep) (simp_all add: keep Cons.IH)
qed

text \<open>
  C2. For a query that is not nil, when the lookup returns the records \<open>res\<close>, \<^verbatim>\<open>Search\<close>
  makes that one lookup (for \<^verbatim>\<open>Number\<close> records) and no other, and returns the results
  that \<^verbatim>\<open>Filter\<close> retains, in the order of \<open>res\<close>: a subsequence of them. So it returns at
  most \<^verbatim>\<open>Number\<close> results whenever the lookup returned at most \<^verbatim>\<open>Number\<close> records.
\<close>

theorem Search_filters_in_order:
  assumes "QueryWithOptions (collection c) ctx
             \<lparr>QueryText = Query q, Where = Exact q, NResults = Number q\<rparr> = Inr res"
  shows "Search MatchString c ctx (Some q) =
           ([\<lparr>QueryText = Query q, Where = Exact q, NResults = Number q\<rparr>],
            Inr (filter (\<lambda>r. Filter MatchString (Some q) r = Inr True) (map Search_result res)))
         \<and> subseq (filter (\<lambda>r. Filter MatchString (Some q) r = Inr True) (map Search_result res))
             (map Search_result res)
         \<and> (int (length res) \<le> Number q \<longrightarrow>
              int (length (filter (\<lambda>r. Filter MatchString (Some q) r = Inr True)
                             (map Search_result res))) \<le> Number q)"
proof (intro conjI impI)
  show "Search MatchString c ctx (Some q) =
           ([\<lparr>QueryText = Query q, Where = Exact q, NResults = Number q\<rparr>],
            Inr (filter (\<lambda>r. Filter MatchString (Some q) r = Inr True) (map Search_result res)))"
    using assms by (simp add: Search_def setOrDefault_def Search_loop_Some)
  show "subseq (filter (\<lambda>r. Filter MatchString (Some q) r = Inr True) (map Search_result res))
             (map Search_result res)"
    by (rule subseq_filter_left)
next
  assume "int (length res) \<le> Number q"
  moreover have "length (filter (\<lambda>r. Filter MatchString (Some q) r = Inr True)
                   (map Search_result res)) \<le> length (map Search_result res)"
    by (rule length_filter_le)
  then have "length (filter (\<lambda>r. Filter MatchString (Some q) r = Inr True)
                   (map Search_result res)) \<le> length res"
    by (simp only: length_map)
  ultimately show "int (length (filter (\<lambda>r. Filter MatchString (Some q) r = Inr True)
                             (map Search_result res))) \<le> Number q"
    by linarith
qed

theorem Search_filters_in_order_witness:
  "QueryWithOptions (collection
       \<lparr>collection = \<lparr>AddDocuments = (\<lambda>ctx docs n. None :: string option),
                      QueryWithOptions = (\<lambda>ctx opt. Inr
                        [\<lparr>res_Metadata = [(''author'', ''Melville'')], res_Content = ''Loomings'',
                          res_Similarity = 9\<rparr>,
                         \<lparr>res_Metadata = [(''author'', ''Thoreau'')], res_Content = ''Economy'',
                          res_Similarity = 7\<rparr>])\<rparr>,
        concurrency = 1\<rparr>) ()
     \<lparr>QueryText = Query \<lparr>Query = ''pond'', Exact = [(''author'', ''Thoreau'')],
                           Regex = ([] :: string gomap), Number = 2\<rparr>,
      Where = Exact \<lparr>Query = ''pond'', Exact = [(''author'', ''Thoreau'')],
                           Regex = ([] :: string gomap), Number = 2\<rparr>,
      NResults = Number \<lparr>Query = ''pond'', Exact = [(''author'', ''Thoreau'')],
                           Regex = ([] :: string gomap), Number = 2\<rparr>\<rparr>
     = Inr [\<lparr>res_Metadata = [(''author'', ''Melville'')], res_Content = ''Loomings'',
              res_Similarity = 9\<rparr>,
            \<lparr>res_Metadata = [(''author'', ''Thoreau'')], res_Content = ''Economy'',
              res_Similarity = 7\<rparr>]
   \<and> Search (=)
       \<lparr>collection = \<lparr>AddDocuments = (\<lambda>ctx docs n. None :: string option),
                      QueryWithOptions = (\<lambda>ctx opt. Inr
                        [\<lparr>res_Metadata = [(''author'', ''Melville'')], res_Content = ''Loomings'',
                          res_Similarity = 9\<rparr>,
                         \<lparr>res_Metadata = [(''author'', ''Thoreau'')], res_Content = ''Economy'',
                          res_Similarity = 7\<rparr>])\<rparr>,
        concurrency = 1\<rparr> ()
       (Some \<lparr>Query = ''pond'', Exact = [(''author'', ''Thoreau'')], Regex = [], Number = 2\<rparr>)
     = ([\<lparr>QueryText = ''pond'', Where = [(''author'', ''Thoreau'')], NResults = 2\<rparr>],
        Inr [\<lparr>Document = \<lparr>Content = ''Economy'', Metadata = [(''author'', ''Thoreau'')]\<rparr>,
              Score = 7\<rparr>])"
proof -
  let ?ra = "\<lparr>res_Metadata = [(''author'', ''Melville'')], res_Content = ''Loomings'',
              res_Similarity = 9\<rparr>"
  let ?rb = "\<lparr>res_Metadata = [(''author'', ''Thoreau'')], res_Content = ''Economy'',
              res_Similarity = 7\<rparr>"
  let ?c = "\<lparr>collection = \<lparr>AddDocuments = (\<lambda>ctx docs n. None :: string option),
                            QueryWithOptions = (\<lambda>ctx opt. Inr [?ra, ?rb])\<rparr>,
             concurrency = 1\<rparr> :: (unit, string) chromemStore"
  let ?q = "\<lparr>Query = ''pond'', Exact = [(''author'', ''Thoreau'')],
             Regex = ([] :: string gomap), Number = 2\<rparr>"
  have h: "QueryWithOptions (collection ?c) ()
             \<lparr>QueryText = Query ?q, Where = Exact ?q, NResults = Number ?q\<rparr> = Inr [?ra, ?rb]"
    by simp
  have keep: "filter (\<lambda>r. Filter (=) (Some ?q) r = Inr True) (map Search_result [?ra, ?rb])
      = [\<lparr>Document = \<lparr>Content = ''Economy'', Metadata = [(''author'', ''Thoreau'')]\<rparr>,
              Score = 7\<rparr>]"
    by (simp add: Filter_def Let_def Search_result_def len_def entries_def index_def)
  from Search_filters_in_order [OF h, of "(=)"] keep
  have "Search (=) ?c () (Some ?q)
     = ([\<lparr>QueryText = ''pond'', Where = [(''author'', ''Thoreau'')], NResults = 2\<rparr>],
        Inr [\<lparr>Document = \<lparr>Content = ''Economy'', Metadata = [(''author'', ''Thoreau'')]\<rparr>,
              Score = 7\<rparr>])"
    by simp
  with h show ?thesis
    by blast
qed

text \<open>
  \<^verbatim>\<open>Search\<close> calls \<^verbatim>\<open>Filter\<close> on its argument \<^verbatim>\<open>query\<close>, not on the query that
  \<^verbatim>\<open>setOrDefault\<close> returned, so a nil query would panic at the first record of a reply.
\<close>

lemma nil_query_with_records:
  assumes "QueryWithOptions (collection c) ctx \<lparr>QueryText = [], Where = [], NResults = 1\<rparr>
             = Inr (r # res)"
  shows "Search MatchString c ctx None
           = ([\<lparr>QueryText = [], Where = [], NResults = 1\<rparr>], Inl (Panic NilPointerDereference))"
  using assms by (simp add: Search_def setOrDefault_def Filter_def Let_def)



section \<open>Properties of chunkMarkdown\<close>

text \<open>
  Every document that the loop returns holds the map \<open>m\<close> it was given, and when the loop
  ends that map has the index of the last chunk under \<^verbatim>\<open>chunk\<close>.
\<close>

lemma chunkMarkdown_loop_shared:
  "chunkMarkdown_loop m i chunks s = (docs, s') \<Longrightarrow>
     map Content docs = chunks \<and> (\<forall>d \<in> set docs. Metadata d = m)
     \<and> (chunks \<noteq> [] \<longrightarrow> index (cells s' m) ''chunk'' = Itoa (int (i + length chunks) - 1))"
proof (induction m i chunks s arbitrary: docs s' rule: chunkMarkdown_loop.induct)
  case (1 metadata i s)
  then show ?case by simp
next
  case (2 metadata i chunk chunks s)
  let ?s1 = "store_assign s metadata ''chunk'' (Itoa (int i))"
  obtain ds s2 where rest: "chunkMarkdown_loop metadata (Suc i) chunks ?s1 = (ds, s2)"
    by (cases "chunkMarkdown_loop metadata (Suc i) chunks ?s1")
  with "2.prems" have docs: "docs = \<lparr>Content = chunk, Metadata = metadata\<rparr> # ds" and s': "s' = s2"
    by (simp_all add: Let_def)
  from "2.IH" [OF refl rest]
  have ih: "map Content ds = chunks" "\<forall>d \<in> set ds. Metadata d = metadata"
    "chunks \<noteq> [] \<longrightarrow> index (cells s2 metadata) ''chunk'' = Itoa (int (Suc i + length chunks) - 1)"
    by simp_all
  have last: "index (cells s' metadata) ''chunk'' = Itoa (int (i + length (chunk # chunks)) - 1)"
  proof (cases chunks)
    case Nil
    with rest s' show ?thesis
      by (auto simp: store_assign_def index_def assign_def AList.update_conv')
  next
    case (Cons c cs)
    with ih(3) s' show ?thesis by simp
  qed
  with docs ih show ?case by simp
qed

text \<open>
  C9. The \<open>i\<close>-th document is claimed to have the decimal string of \<open>i\<close> under \<^verbatim>\<open>chunk\<close>,
  in a map of its own. On a text of two chunks both documents hold the map at address 0,
  and the first document reads \<^verbatim>\<open>"1"\<close> under \<^verbatim>\<open>chunk\<close>, not \<^verbatim>\<open>"0"\<close>: the second turn of
  the loop changed the map that the first document holds.
\<close>

theorem chunkMarkdown_shared_map:
  "case chunkMarkdown (\<lambda>md. Inr [''# One'', ''# Two'']) ''# One # Two'' None
          \<lparr>cells = (\<lambda>m. []), fresh = 0\<rparr> of
     Inl (err :: string) \<Rightarrow> False
   | Inr (documents, s) \<Rightarrow>
       documents = [\<lparr>Content = ''# One'', Metadata = 0\<rparr>, \<lparr>Content = ''# Two'', Metadata = 0\<rparr>]
       \<and> map (read_Document s) documents
           = [\<lparr>Content = ''# One'', Metadata = [(''chunk'', ''1'')]\<rparr>,
              \<lparr>Content = ''# Two'', Metadata = [(''chunk'', ''1'')]\<rparr>]
       \<and> index (Metadata (read_Document s (documents ! 0))) ''chunk'' = ''1''
       \<and> Itoa 0 = ''0''"
  by (simp add: chunkMarkdown_def make_map_def store_assign_def assign_def read_Document_def
      index_def Itoa_def Let_def)

end
